theory Spec2Isabelle
  imports Complex_Main "HOL-Library.Multiset"
begin

section \<open>JavaScript strings\<close>

text \<open>
  A JavaScript string is a sequence of UTF-16 code units; \<open>length\<close>, \<open>slice\<close>,
  \<open>charAt\<close> and the regular expressions of the library (none has the \<open>u\<close> flag) all
  work on code units. A code unit is modelled by its number, so that the characters
  beyond ASCII (the currency symbols, the Unicode white space) are covered as well.
  \<open>js\<close> turns an ASCII literal into such a string.
\<close>

type_synonym jschar = nat
type_synonym jsstring = "jschar list"

definition js :: "string \<Rightarrow> jsstring" where
  "js s = map of_char s"

text \<open>The character classes \<open>[a-z]\<close>, \<open>[A-Z]\<close> and \<open>\d\<close> (which is \<open>[0-9]\<close> in JavaScript).\<close>

definition is_lower :: "jschar \<Rightarrow> bool" where
  "is_lower c = (97 \<le> c \<and> c \<le> 122)"

definition is_upper :: "jschar \<Rightarrow> bool" where
  "is_upper c = (65 \<le> c \<and> c \<le> 90)"

definition is_digit :: "jschar \<Rightarrow> bool" where
  "is_digit c = (48 \<le> c \<and> c \<le> 57)"

text \<open>
  The class \<open>\s\<close>: tab, line feed, vertical tab, form feed, carriage return, space,
  no-break space, U+1680, U+2000 to U+200A, U+2028, U+2029, U+202F, U+205F, U+3000 and
  U+FEFF. \<open>String.prototype.trim\<close> strips the same set.
\<close>

definition is_space :: "jschar \<Rightarrow> bool" where
  "is_space c = (c \<in> set [9, 10, 11, 12, 13, 32, 160, 5760, 8232, 8233, 8239, 8287, 12288, 65279]
     \<or> (8192 \<le> c \<and> c \<le> 8202))"

text \<open>The line terminators, which \<open>.\<close> does not match: LF, CR, U+2028, U+2029.\<close>

definition is_line_terminator :: "jschar \<Rightarrow> bool" where
  "is_line_terminator c = (c \<in> set [10, 13, 8232, 8233])"

text \<open>\<open>s.replace(/\s+/g, '')\<close>: every run of white space is removed, so every white-space
  code unit is.\<close>

definition strip_whitespace :: "jsstring \<Rightarrow> jsstring" where
  "strip_whitespace s = filter (\<lambda>c. \<not> is_space c) s"

text \<open>\<open>s.replace(/-/g, '')\<close>.\<close>

definition strip_dashes :: "jsstring \<Rightarrow> jsstring" where
  "strip_dashes s = filter (\<lambda>c. c \<noteq> 45) s"

section \<open>isValidPassword\<close>

text \<open>
  \<^verbatim>\<open>new RegExp(`^(?=.*[a-z])(?=.*[A-Z])(?=.*\\d)(?=.*[@$!%*?&])[A-Za-z\\d@$!%*?&]{${minLength},}$`)\<close>

  A lookahead \<open>(?=.*[C])\<close> at the start of the input holds when a character of class
  \<open>C\<close> is reached by skipping characters that are not line terminators. The body
  \<open>[A-Za-z\d@$!%*?&]{minLength,}\<close> between \<open>^\<close> and \<open>$\<close> (no \<open>m\<close> flag) must consume the
  whole input. \<open>minLength\<close> is a natural number (any other number does not give a
  quantifier).
\<close>

definition is_password_special :: "jschar \<Rightarrow> bool" where
  "is_password_special c = (c \<in> set (js ''@$!%*?&''))"

definition is_password_char :: "jschar \<Rightarrow> bool" where
  "is_password_char c = (is_upper c \<or> is_lower c \<or> is_digit c \<or> is_password_special c)"

definition lookahead :: "(jschar \<Rightarrow> bool) \<Rightarrow> jsstring \<Rightarrow> bool" where
  "lookahead cls s = list_ex cls (takeWhile (\<lambda>c. \<not> is_line_terminator c) s)"

definition isValidPassword :: "jsstring \<Rightarrow> nat \<Rightarrow> bool" where
  "isValidPassword password minLength =
     (lookahead is_lower password \<and> lookahead is_upper password
      \<and> lookahead is_digit password \<and> lookahead is_password_special password
      \<and> list_all is_password_char password \<and> minLength \<le> length password)"

section \<open>isValidCreditCard\<close>

text \<open>\<open>parseInt\<close> of a one-character string holding a decimal digit.\<close>

definition parseInt :: "jschar \<Rightarrow> nat" where
  "parseInt c = c - 48"

text \<open>
  The loop \<open>for (let i = cleaned.length - 1; i >= 0; i--)\<close>: the first argument is
  \<open>i + 1\<close>, the number of characters still to visit.
\<close>

fun luhn_loop :: "nat \<Rightarrow> jsstring \<Rightarrow> nat \<Rightarrow> bool \<Rightarrow> nat" where
  "luhn_loop 0 cleaned sum_acc isEven = sum_acc"
| "luhn_loop (Suc i) cleaned sum_acc isEven =
     (let digit = parseInt (cleaned ! i);
          digit = (if isEven then (let d = digit * 2 in if d > 9 then d - 9 else d) else digit)
      in luhn_loop i cleaned (sum_acc + digit) (\<not> isEven))"

definition isValidCreditCard :: "jsstring \<Rightarrow> bool" where
  "isValidCreditCard cardNumber =
     (let cleaned = strip_dashes (strip_whitespace cardNumber)
      in if \<not> (list_all is_digit cleaned \<and> 13 \<le> length cleaned \<and> length cleaned \<le> 19)
         then False
         else luhn_loop (length cleaned) cleaned 0 False mod 10 = 0)"

text \<open>
  The checksum in the words of the specification: counting from the rightmost digit
  (position 0), every second digit (the odd positions) is doubled, 9 is subtracted from
  a doubled value that exceeds 9, and all the values are added up.
\<close>

definition luhn_value :: "nat \<Rightarrow> nat \<Rightarrow> nat" where
  "luhn_value pos d = (if odd pos then (if 2 * d > 9 then 2 * d - 9 else 2 * d) else d)"

definition luhn_checksum :: "nat list \<Rightarrow> nat" where
  "luhn_checksum ds = (\<Sum>k < length ds. luhn_value k (rev ds ! k))"

section \<open>formatCurrency\<close>

text \<open>The table \<open>CURRENCY_SYMBOLS\<close>; a symbol beyond ASCII is given by its code units.\<close>

definition CURRENCY_SYMBOLS :: "(jsstring \<times> jsstring) list" where
  "CURRENCY_SYMBOLS =
     [(js ''USD'', js ''$''),
      (js ''EUR'', [8364]),
      (js ''GBP'', [163]),
      (js ''JPY'', [165]),
      (js ''CAD'', js ''C$''),
      (js ''AUD'', js ''A$''),
      (js ''CHF'', js ''CHF''),
      (js ''CNY'', [165]),
      (js ''INR'', [8377]),
      (js ''KRW'', [8361]),
      (js ''RUB'', [8381]),
      (js ''BRL'', js ''R$''),
      (js ''MXN'', js ''$''),
      (js ''SGD'', js ''S$''),
      (js ''HKD'', js ''HK$''),
      (js ''SEK'', js ''kr''),
      (js ''NOK'', js ''kr''),
      (js ''DKK'', js ''kr''),
      (js ''PLN'', [122, 322]),
      (js ''CZK'', [75, 269]),
      (js ''HUF'', js ''Ft''),
      (js ''RON'', js ''lei''),
      (js ''BGN'', [1083, 1074]),
      (js ''HRK'', js ''kn''),
      (js ''RSD'', [1076, 1080, 1085, 46]),
      (js ''UAH'', [8372]),
      (js ''TRY'', [8378]),
      (js ''ILS'', [8362]),
      (js ''AED'', [1583, 46, 1573]),
      (js ''SAR'', [1585, 46, 1587]),
      (js ''QAR'', [1585, 46, 1602]),
      (js ''KWD'', [1583, 46, 1603]),
      (js ''BHD'', [46, 1583, 46, 1576]),
      (js ''OMR'', [1585, 46, 1593, 46]),
      (js ''JOD'', [1583, 46, 1575]),
      (js ''LBP'', [1604, 46, 1604]),
      (js ''EGP'', [1580, 46, 1605]),
      (js ''ZAR'', js ''R''),
      (js ''NGN'', [8358]),
      (js ''KES'', js ''KSh''),
      (js ''GHS'', [71, 72, 8373]),
      (js ''UGX'', js ''USh''),
      (js ''TZS'', js ''TSh''),
      (js ''ZMW'', js ''ZK''),
      (js ''BWP'', js ''P''),
      (js ''MUR'', [8360]),
      (js ''MAD'', [1583, 46, 1605, 46]),
      (js ''TND'', [1583, 46, 1578]),
      (js ''DZD'', [1583, 46, 1580]),
      (js ''LYD'', [1604, 46, 1583]),
      (js ''SDG'', [1580, 46, 1587, 46]),
      (js ''ETB'', js ''Br''),
      (js ''DJF'', js ''Fdj''),
      (js ''KMF'', js ''CF''),
      (js ''MGA'', js ''Ar''),
      (js ''BIF'', js ''FBu''),
      (js ''RWF'', js ''FRw''),
      (js ''MWK'', js ''MK''),
      (js ''ZWL'', js ''Z$'')]"

text \<open>
  \<open>CURRENCY_SYMBOLS[currency]\<close> looks the key up among the table's own properties and
  then on \<open>Object.prototype\<close>, whose property names are listed here; a key found
  nowhere gives \<open>undefined\<close>, which the template literal turns into the string
  \<open>undefined\<close>. The text that the template literal makes of an inherited member (a
  built-in function or the prototype object) is the engine's, and is a parameter.
\<close>

definition Object_prototype_keys :: "jsstring list" where
  "Object_prototype_keys =
     [js ''constructor'', js ''__defineGetter__'', js ''__defineSetter__'',
      js ''hasOwnProperty'', js ''__lookupGetter__'', js ''__lookupSetter__'',
      js ''isPrototypeOf'', js ''propertyIsEnumerable'', js ''toString'', js ''valueOf'',
      js ''__proto__'', js ''toLocaleString'']"

definition formatCurrency :: "(jsstring \<Rightarrow> jsstring) \<Rightarrow> jsstring \<Rightarrow> jsstring" where
  "formatCurrency inherited currency =
     (case map_of CURRENCY_SYMBOLS currency of
        Some symbol \<Rightarrow> symbol
      | None \<Rightarrow>
          if currency \<in> set Object_prototype_keys then inherited currency
          else js ''undefined'')"

section \<open>buildFilters\<close>

text \<open>
  The values a filter object holds, an object as the list of its own properties in
  the order of \<open>Object.keys\<close>, and the exception of calling \<open>trim\<close> on a value that has
  no such method.
\<close>

datatype jsvalue = JUndefined | JNull | JBool bool | JNum int | JStr jsstring

datatype error = TypeError | Error jsstring

type_synonym jsobject = "(jsstring \<times> jsvalue) list"

fun truthy :: "jsvalue \<Rightarrow> bool" where
  "truthy JUndefined = False"
| "truthy JNull = False"
| "truthy (JBool b) = b"
| "truthy (JNum n) = (n \<noteq> 0)"
| "truthy (JStr s) = (s \<noteq> [])"

definition trim :: "jsstring \<Rightarrow> jsstring" where
  "trim s = rev (dropWhile is_space (rev (dropWhile is_space s)))"

text \<open>Reading an own property (\<open>undefined\<close> when absent).\<close>

definition get_prop :: "jsobject \<Rightarrow> jsstring \<Rightarrow> jsvalue" where
  "get_prop obj k = (case map_of obj k of Some v \<Rightarrow> v | None \<Rightarrow> JUndefined)"

text \<open>
  An array index is a key that is the canonical decimal text of an integer below
  \<open>2^32 - 1\<close>. \<open>Object.keys\<close> lists the array indices first, in ascending order, and then
  the other keys in the order of their creation.
\<close>

definition decimal :: "jsstring \<Rightarrow> int" where
  "decimal k = foldl (\<lambda>n c. 10 * n + (int c - 48)) 0 k"

definition array_index :: "jsstring \<Rightarrow> int option" where
  "array_index k =
     (if k \<noteq> [] \<and> list_all is_digit k \<and> (length k = 1 \<or> hd k \<noteq> 48) \<and> decimal k < 4294967295
      then Some (decimal k) else None)"

fun insert_index :: "int \<Rightarrow> jsstring \<Rightarrow> jsvalue \<Rightarrow> jsobject \<Rightarrow> jsobject" where
  "insert_index n k v [] = [(k, v)]"
| "insert_index n k v (p # ps) =
     (case array_index (fst p) of
        Some m \<Rightarrow> if m < n then p # insert_index n k v ps else (k, v) # p # ps
      | None \<Rightarrow> (k, v) # p # ps)"

fun replace_prop :: "jsstring \<Rightarrow> jsvalue \<Rightarrow> jsobject \<Rightarrow> jsobject" where
  "replace_prop k v [] = []"
| "replace_prop k v (p # ps) = (if fst p = k then (k, v) # ps else p # replace_prop k v ps)"

text \<open>
  The assignment \<open>obj[k] = v\<close> on an object made by \<open>{}\<close>, for a value \<open>v\<close> that is not
  an object and not \<open>null\<close> (\<open>buildFilters\<close> assigns no other): the key \<open>__proto__\<close> is the
  setter of \<open>Object.prototype\<close>, which ignores such a value and stores nothing; an
  existing key keeps its place; a new array index goes among the array indices, and
  any other new key goes last.
\<close>

definition set_prop :: "jsstring \<Rightarrow> jsvalue \<Rightarrow> jsobject \<Rightarrow> jsobject" where
  "set_prop k v obj =
     (if k = js ''__proto__'' then obj
      else if k \<in> fst ` set obj then replace_prop k v obj
      else (case array_index k of
              Some n \<Rightarrow> insert_index n k v obj
            | None \<Rightarrow> obj @ [(k, v)]))"

text \<open>\<open>if (filters.name && filters.name !== '') parsedFilters.name = filters.name\<close>,
  the value copied as it is.\<close>

definition copy_field :: "jsstring \<Rightarrow> jsobject \<Rightarrow> jsobject \<Rightarrow> jsobject" where
  "copy_field name filters parsedFilters =
     (let v = get_prop filters name
      in if truthy v \<and> v \<noteq> JStr [] then set_prop name v parsedFilters else parsedFilters)"

text \<open>\<open>if (filters.locate && filters.locate.trim() !== '') parsedFilters.locate =
  filters.locate.trim()\<close>: a truthy value that is not a string has no \<open>trim\<close>.\<close>

definition copy_locate :: "jsobject \<Rightarrow> jsobject \<Rightarrow> error + jsobject" where
  "copy_locate filters parsedFilters =
     (let v = get_prop filters (js ''locate'')
      in if \<not> truthy v then Inr parsedFilters
         else (case v of
                 JStr s \<Rightarrow>
                   if trim s \<noteq> [] then Inr (set_prop (js ''locate'') (JStr (trim s)) parsedFilters)
                   else Inr parsedFilters
               | _ \<Rightarrow> Inl TypeError))"

text \<open>The body of the \<open>forEach\<close> callback for one key, and the loop over the keys; an
  exception ends the loop.\<close>

definition each_key :: "jsobject \<Rightarrow> jsstring \<Rightarrow> jsobject \<Rightarrow> error + jsobject" where
  "each_key filters key parsedFilters =
     (let val = get_prop filters key;
          p1 = copy_field (js ''kyc_status'') filters parsedFilters;
          p2 = copy_field (js ''sortField'') filters p1;
          p3 = copy_field (js ''sortDirection'') filters p2
      in case copy_locate filters p3 of
           Inl e \<Rightarrow> Inl e
         | Inr p4 \<Rightarrow>
             (case copy_locate filters p4 of
                Inl e \<Rightarrow> Inl e
              | Inr p5 \<Rightarrow>
                  if val \<noteq> JNull \<and> val \<noteq> JUndefined \<and> val \<noteq> JStr []
                  then Inr (set_prop key (case val of JStr s \<Rightarrow> JStr (trim s) | _ \<Rightarrow> val) p5)
                  else Inr p5))"

fun forEach :: "jsobject \<Rightarrow> jsstring list \<Rightarrow> jsobject \<Rightarrow> error + jsobject" where
  "forEach filters [] parsedFilters = Inr parsedFilters"
| "forEach filters (key # keys) parsedFilters =
     (case each_key filters key parsedFilters of
        Inl e \<Rightarrow> Inl e
      | Inr parsedFilters' \<Rightarrow> forEach filters keys parsedFilters')"

definition buildFilters :: "jsobject \<Rightarrow> error + jsobject" where
  "buildFilters filters = forEach filters (map fst filters) []"

text \<open>
  The function in the words of the specification: drop the keys whose value is null,
  undefined or the empty string, and trim the string values that remain.
\<close>

definition buildFilters_spec :: "jsobject \<Rightarrow> jsobject" where
  "buildFilters_spec filters =
     map (\<lambda>(k, v). (k, case v of JStr s \<Rightarrow> JStr (trim s) | _ \<Rightarrow> v))
       (filter (\<lambda>(k, v). v \<noteq> JNull \<and> v \<noteq> JUndefined \<and> v \<noteq> JStr []) filters)"

section \<open>Random numbers\<close>

text \<open>
  \<open>Math.random()\<close> gives a number \<open>r\<close> with \<open>0 \<le> r < 1\<close>. The outcome of the draws of one
  call of a generator is a function \<open>random\<close> from the position of a draw (0 for the
  first call of \<open>Math.random\<close>) to the number drawn. \<open>Math_floor\<close> is \<open>Math.floor\<close>, and
  \<open>index_char s i\<close> is \<open>s[i]\<close>, which is \<open>undefined\<close> (here \<open>None\<close>) outside the string.
\<close>

definition valid_random :: "(nat \<Rightarrow> real) \<Rightarrow> bool" where
  "valid_random random = (\<forall>i. 0 \<le> random i \<and> random i < 1)"

definition Math_floor :: "real \<Rightarrow> int" where
  "Math_floor x = \<lfloor>x\<rfloor>"

definition index_char :: "jsstring \<Rightarrow> int \<Rightarrow> jschar option" where
  "index_char s i = (if 0 \<le> i \<and> i < int (length s) then Some (s ! nat i) else None)"

section \<open>generateCoupon\<close>

text \<open>The options object; a field that is absent (\<open>None\<close>) takes its default.\<close>

record CouponOptions =
  couponLength :: "int option"
  prefix :: "jsstring option"
  suffix :: "jsstring option"
  includeNumbers :: "bool option"
  includeUppercase :: "bool option"
  includeLowercase :: "bool option"
  includeSpecialChars :: "bool option"

definition default :: "'a \<Rightarrow> 'a option \<Rightarrow> 'a" where
  "default d x = (case x of None \<Rightarrow> d | Some v \<Rightarrow> v)"

definition numbers :: jsstring where
  "numbers = js ''0123456789''"

definition uppercase :: jsstring where
  "uppercase = js ''ABCDEFGHIJKLMNOPQRSTUVWXYZ''"

definition lowercase :: jsstring where
  "lowercase = js ''abcdefghijklmnopqrstuvwxyz''"

definition special :: jsstring where
  "special = js ''!@#$%^&*()_+-=[]{}|;:,.<>?''"

text \<open>The alphabet \<open>chars\<close>, built from the selected classes.\<close>

definition coupon_chars :: "CouponOptions \<Rightarrow> jsstring" where
  "coupon_chars options =
     (let chars = [];
          chars = (if default True (includeNumbers options) then chars @ numbers else chars);
          chars = (if default True (includeUppercase options) then chars @ uppercase else chars);
          chars = (if default False (includeLowercase options) then chars @ lowercase else chars);
          chars = (if default False (includeSpecialChars options) then chars @ special else chars)
      in chars)"

text \<open>
  The loop \<open>for (let i = 0; i < length; i++)\<close>; iteration \<open>i\<close> makes draw \<open>i\<close>. Appending
  \<open>undefined\<close> to a string appends the text \<open>undefined\<close>.
\<close>

function coupon_loop :: "(nat \<Rightarrow> real) \<Rightarrow> jsstring \<Rightarrow> int \<Rightarrow> nat \<Rightarrow> jsstring \<Rightarrow> jsstring" where
  "coupon_loop random chars len i coupon =
     (if int i < len then
        (let randomIndex = Math_floor (random i * real (length chars))
         in coupon_loop random chars len (i + 1)
              (coupon @ (case index_char chars randomIndex of
                           Some c \<Rightarrow> [c] | None \<Rightarrow> js ''undefined'')))
      else coupon)"
  by pat_completeness auto
termination
  by (relation "measure (\<lambda>(random, chars, len, i, coupon). nat (len - int i))") auto

declare coupon_loop.simps [simp del]

definition generateCoupon :: "(nat \<Rightarrow> real) \<Rightarrow> CouponOptions \<Rightarrow> error + jsstring" where
  "generateCoupon random options =
     (let len = default 8 (couponLength options);
          chars = coupon_chars options
      in if chars = [] then Inl (Error (js ''At least one character type must be included''))
         else
           (let coupon = coupon_loop random chars len 0 []
            in Inr (strip_whitespace
                 (default [] (prefix options) @ coupon @ default [] (suffix options)))))"

text \<open>The call \<open>generateCoupon({ length: 10, includeNumbers: true, includeUppercase: true })\<close>.\<close>

definition ten_options :: CouponOptions where
  "ten_options = \<lparr>couponLength = Some 10, prefix = None, suffix = None,
     includeNumbers = Some True, includeUppercase = Some True,
     includeLowercase = None, includeSpecialChars = None\<rparr>"

section \<open>generateRandomPassword\<close>

definition charset :: jsstring where
  "charset = js ''abcdefghijklmnopqrstuvwxyzABCDEFGHIJKLMNOPQRSTUVWXYZ0123456789!@#$%&*?''"

text \<open>\<open>randomChar\<close>, with the number drawn as its first argument.\<close>

definition randomChar :: "real \<Rightarrow> int \<Rightarrow> int \<Rightarrow> jschar option" where
  "randomChar r min_i max_i = index_char charset (Math_floor (r * real_of_int (max_i - min_i + 1)) + min_i)"

text \<open>
  The loop \<open>while (password.length < length)\<close>: every element of the array took one
  draw, so the next draw is at position \<open>password.length\<close>.
\<close>

function fill_loop :: "(nat \<Rightarrow> real) \<Rightarrow> int \<Rightarrow> jschar option list \<Rightarrow> jschar option list" where
  "fill_loop random len password =
     (if int (length password) < len then
        fill_loop random len
          (password @ [randomChar (random (length password)) 0 (int (length charset) - 1)])
      else password)"
  by pat_completeness auto
termination
  by (relation "measure (\<lambda>(random, len, password). nat (len - int (length password)))") auto

declare fill_loop.simps [simp del]

text \<open>\<open>join('')\<close>: an element that is \<open>undefined\<close> contributes nothing.\<close>

definition join :: "jschar option list \<Rightarrow> jsstring" where
  "join xs = concat (map (\<lambda>x. case x of Some c \<Rightarrow> [c] | None \<Rightarrow> []) xs)"

text \<open>
  \<open>password.sort(() => Math.random() - 0.5)\<close> is the engine's sorting algorithm run
  with a comparator that answers at random; its result is a parameter \<open>shuffle\<close> of
  the model, of which only this is known: it rearranges the array.
\<close>

definition rearranges :: "('a list \<Rightarrow> 'a list) \<Rightarrow> bool" where
  "rearranges shuffle = (\<forall>xs. mset (shuffle xs) = mset xs)"

definition generateRandomPassword ::
  "(jschar option list \<Rightarrow> jschar option list) \<Rightarrow> (nat \<Rightarrow> real) \<Rightarrow> int \<Rightarrow> jsstring" where
  "generateRandomPassword shuffle random len =
     (let password =
            [randomChar (random 0) 0 25,
             randomChar (random 1) 26 51,
             randomChar (random 2) 52 61,
             randomChar (random 3) 62 68];
          password = fill_loop random len password
      in join (shuffle password))"

text \<open>The symbols of the generator's character set.\<close>

definition is_symbol :: "jschar \<Rightarrow> bool" where
  "is_symbol c = (c \<in> set (js ''!@#$%&*?''))"

section \<open>Timers and the event loop\<close>

text \<open>
  The rate limiters are closures over one variable each, and they act through
  \<open>setTimeout\<close> and \<open>clearTimeout\<close>. Time is in milliseconds. A history of a wrapper is
  a list of time-stamped events: \<open>Invoke args\<close> is a call of the wrapper, and \<open>Tick\<close>
  is a turn of the event loop, which runs the callbacks of the timers that are due
  (a timer set at time \<open>t\<close> with delay \<open>d\<close> is due from \<open>t + d\<close> on, and may run late).
  Calling the wrapped function is recorded by appending its arguments to a log.
\<close>

datatype 'a event = Invoke 'a | Tick

type_synonym 'a trace = "(nat \<times> 'a event) list"

section \<open>throttle\<close>

text \<open>
  The closure's variable \<open>inThrottle\<close> (\<open>undefined\<close> at first, which is falsy), the
  deadlines of the pending timers \<open>() => (inThrottle = false)\<close>, and the log of the
  calls of \<open>func\<close>.
\<close>

record 'a throttle_state =
  inThrottle :: bool
  throttle_timers :: "nat list"
  throttle_calls :: "'a list"

definition throttle_init :: "'a throttle_state" where
  "throttle_init = \<lparr>inThrottle = False, throttle_timers = [], throttle_calls = []\<rparr>"

text \<open>
  What a call of \<open>func\<close> does, as far as the wrapper can tell: it returns, it throws,
  or it calls the wrapper itself (with arguments of its own, the call of \<open>func\<close> that
  this may start reacting in its turn) and then returns; an exception of the inner call
  is not caught. A call completes normally or abruptly (with an exception).
\<close>

datatype 'a reaction = Returns | Throws | Reenters 'a "'a reaction"

datatype completion = Normal | Abrupt

text \<open>
  The wrapper returned by \<open>throttle(func, limit)\<close>, called at time \<open>now\<close> with a call of
  \<open>func\<close> that reacts as \<open>r\<close>: \<open>func(...args)\<close> runs first, and only when it has returned
  are \<open>inThrottle = true\<close> and \<open>setTimeout\<close> reached. \<open>call_func\<close> is the call
  \<open>func(...args)\<close>, which is logged as it starts.
\<close>

fun throttled ::
    "nat \<Rightarrow> nat \<Rightarrow> 'a \<Rightarrow> 'a reaction \<Rightarrow> 'a throttle_state \<Rightarrow> completion \<times> 'a throttle_state"
  and call_func ::
    "nat \<Rightarrow> nat \<Rightarrow> 'a \<Rightarrow> 'a reaction \<Rightarrow> 'a throttle_state \<Rightarrow> completion \<times> 'a throttle_state"
  where
  "throttled limit now args r s =
     (if \<not> inThrottle s then
        (case call_func limit now args r s of
           (Abrupt, s') \<Rightarrow> (Abrupt, s')
         | (Normal, s') \<Rightarrow>
             (Normal, s'\<lparr>inThrottle := True,
                         throttle_timers := throttle_timers s' @ [now + limit]\<rparr>))
      else (Normal, s))"
| "call_func limit now args Returns s =
     (Normal, s\<lparr>throttle_calls := throttle_calls s @ [args]\<rparr>)"
| "call_func limit now args Throws s =
     (Abrupt, s\<lparr>throttle_calls := throttle_calls s @ [args]\<rparr>)"
| "call_func limit now args (Reenters args' r) s =
     throttled limit now args' r (s\<lparr>throttle_calls := throttle_calls s @ [args]\<rparr>)"

text \<open>A turn of the event loop at time \<open>now\<close>: every due timer runs its callback.\<close>

definition throttle_tick :: "nat \<Rightarrow> 'a throttle_state \<Rightarrow> 'a throttle_state" where
  "throttle_tick now s =
     (if list_ex (\<lambda>deadline. deadline \<le> now) (throttle_timers s)
      then s\<lparr>inThrottle := False,
             throttle_timers := filter (\<lambda>deadline. now < deadline) (throttle_timers s)\<rparr>
      else s)"

text \<open>
  One event of a history, \<open>func\<close> giving the reaction of the action to the arguments
  of a call; an exception goes to the caller of the wrapper, and the state stays as
  the call left it.
\<close>

fun throttle_step ::
    "nat \<Rightarrow> ('a \<Rightarrow> 'a reaction) \<Rightarrow> nat \<times> 'a event \<Rightarrow> 'a throttle_state \<Rightarrow> 'a throttle_state" where
  "throttle_step limit func (t, Invoke args) s = snd (throttled limit t args (func args) s)"
| "throttle_step limit func (t, Tick) s = throttle_tick t s"

fun throttle_trace ::
    "nat \<Rightarrow> ('a \<Rightarrow> 'a reaction) \<Rightarrow> 'a trace \<Rightarrow> 'a throttle_state \<Rightarrow> 'a throttle_state" where
  "throttle_trace limit func [] s = s"
| "throttle_trace limit func (e # es) s =
     throttle_trace limit func es (throttle_step limit func e s)"

text \<open>An action that returns from every call without calling the wrapper.\<close>

definition always_returns :: "('a \<Rightarrow> 'a reaction) \<Rightarrow> bool" where
  "always_returns func = (\<forall>args. func args = Returns)"

section \<open>debounce\<close>

text \<open>
  The closure's variable \<open>timeoutId\<close> (\<open>undefined\<close> at first), the table of the pending
  timers \<open>() => func(...args)\<close> with their identifier, deadline and arguments, the next
  identifier that \<open>setTimeout\<close> hands out, and the log of the calls of \<open>func\<close>.
\<close>

record 'a debounce_state =
  timeoutId :: "nat option"
  debounce_timers :: "(nat \<times> nat \<times> 'a) list"
  nextId :: nat
  debounce_calls :: "'a list"

definition debounce_init :: "'a debounce_state" where
  "debounce_init = \<lparr>timeoutId = None, debounce_timers = [], nextId = 1, debounce_calls = []\<rparr>"

text \<open>\<open>clearTimeout(id)\<close> removes the timer of that identifier, if it is still pending;
  \<open>clearTimeout(undefined)\<close> does nothing.\<close>

definition clearTimeout :: "nat option \<Rightarrow> 'a debounce_state \<Rightarrow> 'a debounce_state" where
  "clearTimeout tid s =
     s\<lparr>debounce_timers := filter (\<lambda>(i, deadline, args). Some i \<noteq> tid) (debounce_timers s)\<rparr>"

text \<open>\<open>setTimeout(() => func(...args), delay)\<close> at time \<open>now\<close>: the new identifier and the
  new state.\<close>

definition setTimeout :: "'a \<Rightarrow> nat \<Rightarrow> nat \<Rightarrow> 'a debounce_state \<Rightarrow> nat \<times> 'a debounce_state" where
  "setTimeout args delay now s =
     (nextId s,
      s\<lparr>debounce_timers := debounce_timers s @ [(nextId s, now + delay, args)],
        nextId := nextId s + 1\<rparr>)"

text \<open>The wrapper returned by \<open>debounce(func, delay)\<close>, called at time \<open>now\<close>.\<close>

definition debounced :: "nat \<Rightarrow> nat \<Rightarrow> 'a \<Rightarrow> 'a debounce_state \<Rightarrow> 'a debounce_state" where
  "debounced delay now args s =
     (let s1 = clearTimeout (timeoutId s) s;
          (tid, s2) = setTimeout args delay now s1
      in s2\<lparr>timeoutId := Some tid\<rparr>)"

text \<open>A turn of the event loop at time \<open>now\<close>: the due timers run, the earliest deadline
  first, and each calls \<open>func\<close> with its arguments.\<close>

definition debounce_tick :: "nat \<Rightarrow> 'a debounce_state \<Rightarrow> 'a debounce_state" where
  "debounce_tick now s =
     (let due = filter (\<lambda>(i, deadline, args). deadline \<le> now) (debounce_timers s)
      in s\<lparr>debounce_calls :=
             debounce_calls s @ map (\<lambda>(i, deadline, args). args)
               (sort_key (\<lambda>(i, deadline, args). deadline) due),
           debounce_timers :=
             filter (\<lambda>(i, deadline, args). now < deadline) (debounce_timers s)\<rparr>)"

fun debounce_step :: "nat \<Rightarrow> nat \<times> 'a event \<Rightarrow> 'a debounce_state \<Rightarrow> 'a debounce_state" where
  "debounce_step delay (t, Invoke args) s = debounced delay t args s"
| "debounce_step delay (t, Tick) s = debounce_tick t s"

fun debounce_trace :: "nat \<Rightarrow> 'a trace \<Rightarrow> 'a debounce_state \<Rightarrow> 'a debounce_state" where
  "debounce_trace delay [] s = s"
| "debounce_trace delay (e # es) s = debounce_trace delay es (debounce_step delay e s)"

text \<open>
  A burst, as the specification has it: after a call at time \<open>prev\<close>, the clock being at
  \<open>now\<close>, every further call comes less than \<open>delay\<close> after the call before it, and the
  turns of the event loop in between come before that delay has elapsed.
  \<open>last_call\<close> gives the arguments and the time of the last call of a burst.
\<close>

fun quiet_burst :: "nat \<Rightarrow> nat \<Rightarrow> nat \<Rightarrow> 'a trace \<Rightarrow> bool" where
  "quiet_burst delay prev now [] = True"
| "quiet_burst delay prev now ((t, Invoke args) # es) =
     (now \<le> t \<and> t < prev + delay \<and> quiet_burst delay t t es)"
| "quiet_burst delay prev now ((t, Tick) # es) =
     (now \<le> t \<and> t < prev + delay \<and> quiet_burst delay prev t es)"

fun last_call :: "'a \<Rightarrow> nat \<Rightarrow> 'a trace \<Rightarrow> 'a \<times> nat" where
  "last_call args prev [] = (args, prev)"
| "last_call args prev ((t, Invoke args') # es) = last_call args' t es"
| "last_call args prev ((t, Tick) # es) = last_call args prev es"

text \<open>
  What holds of the two closures at every moment: a throttle is in its cooldown
  exactly while its one timer is pending, and a debounce has at most one pending
  timer, the one that \<open>timeoutId\<close> names.
\<close>

definition throttle_wf :: "'a throttle_state \<Rightarrow> bool" where
  "throttle_wf s =
     (if inThrottle s then length (throttle_timers s) = 1 else throttle_timers s = [])"

definition debounce_wf :: "'a debounce_state \<Rightarrow> bool" where
  "debounce_wf s =
     (case debounce_timers s of
        [] \<Rightarrow> True
      | (i, deadline, args) # rest \<Rightarrow> rest = [] \<and> timeoutId s = Some i)"

section \<open>The words of the specification\<close>

text \<open>
  What the specification names, written down apart from the code: the white-space
  characters (tab, line feed, vertical tab, form feed, carriage return, space,
  no-break space, U+1680, U+2000 to U+200A, U+2028, U+2029, U+202F, U+205F, U+3000,
  U+FEFF), a string without the characters of a list, the decimal digits and the value
  of one (its place among them).
\<close>

definition white_space :: "jschar list" where
  "white_space =
     [9, 10, 11, 12, 13, 32, 160, 5760, 8192, 8193, 8194, 8195, 8196, 8197, 8198, 8199,
      8200, 8201, 8202, 8232, 8233, 8239, 8287, 12288, 65279]"

definition without :: "jschar list \<Rightarrow> jsstring \<Rightarrow> jsstring" where
  "without cs s = filter (\<lambda>c. c \<notin> set cs) s"

definition decimal_digits :: jsstring where
  "decimal_digits = js ''0123456789''"

definition digit_value :: "jschar \<Rightarrow> nat" where
  "digit_value c = length (takeWhile (\<lambda>d. d \<noteq> c) decimal_digits)"

text \<open>
  A flag of the coupon options is on when it is given as true, or absent with the
  default true. A character is of the selected classes when it is a digit and numbers
  are on, an uppercase letter and uppercase is on, a lowercase letter and lowercase is
  on, or a special character and special characters are on.
\<close>

definition flag_on :: "bool \<Rightarrow> bool option \<Rightarrow> bool" where
  "flag_on dflt flag = (flag = Some True \<or> (flag = None \<and> dflt))"

definition in_selected_classes :: "CouponOptions \<Rightarrow> jschar \<Rightarrow> bool" where
  "in_selected_classes options c =
     ((flag_on True (includeNumbers options) \<and> c \<in> set decimal_digits)
      \<or> (flag_on True (includeUppercase options) \<and> is_upper c)
      \<or> (flag_on False (includeLowercase options) \<and> is_lower c)
      \<or> (flag_on False (includeSpecialChars options)
          \<and> c \<in> set (js ''!@#$%^&*()_+-=[]{}|;:,.<>?'')))"

text \<open>A call of \<open>generateCoupon\<close> with the prefix \<open>'A B '\<close> and the length 3.\<close>

definition spaced_options :: CouponOptions where
  "spaced_options = \<lparr>couponLength = Some 3, prefix = Some (js ''A B ''), suffix = None,
     includeNumbers = None, includeUppercase = None,
     includeLowercase = None, includeSpecialChars = None\<rparr>"

section \<open>truncate\<close>

text \<open>
  \<open>String.prototype.slice(start, end)\<close> on integers: a negative index counts from the end
  of the string, both indices are clamped to the string, and an empty range gives the
  empty string. \<open>slice_from\<close> is the call with one argument, where \<open>end\<close> is the length.
  As \<open>-0\<close> is \<open>0\<close>, \<open>slice_from s (- 0)\<close> is the whole string.
\<close>

definition slice :: "jsstring \<Rightarrow> int \<Rightarrow> int \<Rightarrow> jsstring" where
  "slice s start fin =
     (let len = int (length s);
          lo = (if start < 0 then max (len + start) 0 else min start len);
          hi = (if fin < 0 then max (len + fin) 0 else min fin len)
      in if lo \<ge> hi then [] else take (nat (hi - lo)) (drop (nat lo) s))"

definition slice_from :: "jsstring \<Rightarrow> int \<Rightarrow> jsstring" where
  "slice_from s start = slice s start (int (length s))"

text \<open>
  \<open>truncate(text, startLength, endLength, appendText, appendPosition)\<close>, every argument
  given (the defaults are 3, 4, \<open>'...'\<close> and \<open>'center'\<close>). \<open>!text\<close> holds for the empty
  string.
\<close>

definition truncate :: "jsstring \<Rightarrow> int \<Rightarrow> int \<Rightarrow> jsstring \<Rightarrow> jsstring \<Rightarrow> jsstring" where
  "truncate text startLength endLength appendText appendPosition =
     (if text = [] then []
      else if appendPosition = js ''center'' then
        (if int (length text) \<le> startLength + endLength + 3 then text
         else slice text 0 startLength @ js ''*********'' @ slice_from text (- endLength))
      else if appendPosition = js ''end'' then
        (if int (length text) \<le> startLength then text
         else slice text 0 startLength @ appendText)
      else text)"

section \<open>Properties of isValidPassword\<close>

lemmas char_class_defs = is_lower_def is_upper_def is_digit_def is_space_def
  is_line_terminator_def is_password_special_def is_password_char_def

lemma password_char_not_terminator: "is_password_char c \<Longrightarrow> \<not> is_line_terminator c"
  by (auto simp: is_password_char_def is_line_terminator_def is_upper_def is_lower_def
      is_digit_def is_password_special_def js_def)

lemma lookahead_password_chars:
  assumes "list_all is_password_char p"
  shows "lookahead cls p = list_ex cls p"
proof -
  have "takeWhile (\<lambda>c. \<not> is_line_terminator c) p = p"
    by (rule takeWhile_eq_all_conv [THEN iffD2])
      (use assms in \<open>auto simp: list_all_iff password_char_not_terminator\<close>)
  then show ?thesis unfolding lookahead_def by (rule arg_cong)
qed

text \<open>
  C3, as the code has it: \<open>isValidPassword p minLength\<close> is true exactly when \<open>p\<close> has at
  least \<open>minLength\<close> characters, holds a lowercase letter, an uppercase letter, a digit
  and one of \<open>@$!%*?&\<close>, and every character of \<open>p\<close> is a letter, a digit or one of
  \<open>@$!%*?&\<close>. The character set is restricted: any other character makes the result
  false.
\<close>

theorem isValidPassword_iff:
  "isValidPassword p minLength \<longleftrightarrow>
     minLength \<le> length p \<and> list_ex is_lower p \<and> list_ex is_upper p
     \<and> list_ex is_digit p \<and> list_ex is_password_special p
     \<and> list_all is_password_char p"
  using lookahead_password_chars [of p] by (auto simp: isValidPassword_def)

text \<open>
  C3 as stated fails: \<open>Aa1@aaaa#\<close> has nine characters and one of each of the four
  classes, and is rejected with the default minimum length 8, because of \<open>#\<close>.
\<close>

theorem isValidPassword_rejects_other_characters:
  "8 \<le> length (js ''Aa1@aaaa#'') \<and> list_ex is_lower (js ''Aa1@aaaa#'')
   \<and> list_ex is_upper (js ''Aa1@aaaa#'') \<and> list_ex is_digit (js ''Aa1@aaaa#'')
   \<and> list_ex is_password_special (js ''Aa1@aaaa#'')
   \<and> \<not> isValidPassword (js ''Aa1@aaaa#'') 8"
  by (simp add: isValidPassword_def lookahead_def js_def char_class_defs)

section \<open>Character classes\<close>

lemma is_space_iff: "is_space c \<longleftrightarrow> c \<in> set white_space"
  unfolding is_space_def white_space_def by (simp only: set_simps insert_iff empty_iff) presburger

lemma is_digit_iff: "is_digit c \<longleftrightarrow> c \<in> set decimal_digits"
  unfolding is_digit_def decimal_digits_def js_def by simp presburger

lemma upper_iff: "c \<in> set uppercase \<longleftrightarrow> is_upper c"
  unfolding is_upper_def uppercase_def js_def by simp presburger

lemma lower_iff: "c \<in> set lowercase \<longleftrightarrow> is_lower c"
  unfolding is_lower_def lowercase_def js_def by simp presburger

lemma parseInt_digit: "is_digit c \<Longrightarrow> parseInt c = digit_value c"
  unfolding is_digit_iff by (auto simp: decimal_digits_def js_def parseInt_def digit_value_def)

section \<open>Properties of isValidCreditCard\<close>

lemmas isValidCreditCard_eval = isValidCreditCard_def js_def strip_dashes_def
  strip_whitespace_def char_class_defs parseInt_def

lemma luhn_loop_sum:
  "n \<le> length cs \<Longrightarrow> ev = odd (length cs - n) \<Longrightarrow>
   luhn_loop n cs acc ev = acc + (\<Sum>j<n. luhn_value (length cs - 1 - j) (parseInt (cs ! j)))"
proof (induction n arbitrary: acc ev)
  case 0
  then show ?case by simp
next
  case (Suc n)
  have ev': "(\<not> ev) = odd (length cs - n)"
    using Suc.prems by (simp add: Suc_diff_Suc)
  have pos: "length cs - 1 - n = length cs - Suc n" by simp
  show ?case
    using Suc.prems Suc.IH [OF _ ev']
    by (simp add: Let_def luhn_value_def pos mult.commute)
qed

lemma luhn_loop_checksum:
  "luhn_loop (length cs) cs 0 False = luhn_checksum (map parseInt cs)"
proof -
  have "luhn_loop (length cs) cs 0 False
        = (\<Sum>j<length cs. luhn_value (length cs - 1 - j) (parseInt (cs ! j)))"
    using luhn_loop_sum [of "length cs" cs False 0] by simp
  also have "\<dots> = (\<Sum>k<length cs. luhn_value k (parseInt (cs ! (length cs - 1 - k))))"
    by (rule sum.reindex_bij_witness
        [where i = "\<lambda>k. length cs - 1 - k" and j = "\<lambda>j. length cs - 1 - j"]) auto
  also have "\<dots> = luhn_checksum (map parseInt cs)"
  proof -
    have "rev (map parseInt cs) ! k = parseInt (cs ! (length cs - 1 - k))"
      if "k < length cs" for k
      using that by (simp add: rev_nth rev_map [symmetric] del: rev_map)
    then show ?thesis
      unfolding luhn_checksum_def by simp
  qed
  finally show ?thesis .
qed

lemma cleaned_without:
  "strip_dashes (strip_whitespace s) = without (white_space @ js ''-'') s"
  unfolding strip_dashes_def strip_whitespace_def without_def
  by (induction s) (simp_all add: is_space_iff js_def)

lemma digits_values:
  assumes "list_all is_digit cs"
  shows "map parseInt cs = map digit_value cs"
  using assms by (induction cs) (simp_all add: parseInt_digit)

text \<open>
  C4, as the code has it: \<open>isValidCreditCard s\<close> is true exactly when, after removing
  every white-space character (tabs, line breaks and the Unicode spaces as well as the
  space character) and every dash from \<open>s\<close>, the remainder consists of 13 to 19 decimal
  digits whose Luhn checksum (every second digit counting from the rightmost doubled, 9
  subtracted from a doubled value above 9, all values added) is divisible by 10. It is
  true for 4532015112830366 and false for 1234567890123456.
\<close>

theorem isValidCreditCard_luhn:
  "(isValidCreditCard s \<longleftrightarrow>
     (let cleaned = without (white_space @ js ''-'') s
      in list_all (\<lambda>c. c \<in> set decimal_digits) cleaned
         \<and> 13 \<le> length cleaned \<and> length cleaned \<le> 19
         \<and> luhn_checksum (map digit_value cleaned) mod 10 = 0))
   \<and> isValidCreditCard (js ''4532015112830366'')
   \<and> \<not> isValidCreditCard (js ''1234567890123456'')"
proof (intro conjI)
  let ?cleaned = "without (white_space @ js ''-'') s"
  have "is_digit = (\<lambda>c. c \<in> set decimal_digits)"
    by (rule ext) (rule is_digit_iff)
  then have digits:
    "list_all (\<lambda>c. c \<in> set decimal_digits) ?cleaned = list_all is_digit ?cleaned"
    by simp
  show "isValidCreditCard s \<longleftrightarrow>
     (let cleaned = without (white_space @ js ''-'') s
      in list_all (\<lambda>c. c \<in> set decimal_digits) cleaned
         \<and> 13 \<le> length cleaned \<and> length cleaned \<le> 19
         \<and> luhn_checksum (map digit_value cleaned) mod 10 = 0)"
  proof (cases "list_all is_digit ?cleaned")
    case True
    then show ?thesis
      unfolding isValidCreditCard_def Let_def cleaned_without luhn_loop_checksum digits
      by (cases "luhn_checksum (map digit_value ?cleaned) mod 10 = 0")
        (simp_all add: digits_values)
  next
    case False
    then show ?thesis
      unfolding isValidCreditCard_def Let_def cleaned_without digits by simp
  qed
  show "isValidCreditCard (js ''4532015112830366'')"
    by (simp add: isValidCreditCard_eval)
  show "\<not> isValidCreditCard (js ''1234567890123456'')"
    by (simp add: isValidCreditCard_eval)
qed

text \<open>
  C4 as stated fails: the valid number 4532015112830366 with a tab (code unit 9) after
  its fourth digit is accepted, although removing the spaces and the dashes from it
  leaves the tab, so that the remainder is not made of decimal digits.
\<close>

theorem isValidCreditCard_strips_tab:
  "isValidCreditCard (js ''4532'' @ [9] @ js ''015112830366'')
   \<and> \<not> list_all (\<lambda>c. c \<in> set decimal_digits)
         (without (js '' -'') (js ''4532'' @ [9] @ js ''015112830366''))"
  by (simp add: isValidCreditCard_eval without_def decimal_digits_def)

section \<open>Properties of truncate and formatCurrency\<close>

lemma truncate_center_positive:
  assumes "0 \<le> startLength" "0 < endLength"
    and "startLength + endLength + 3 < int (length text)"
  shows "truncate text startLength endLength appendText (js ''center'')
         = take (nat startLength) text @ js ''*********'' @ drop (length text - nat endLength) text"
proof -
  have ne: "text \<noteq> []" using assms by auto
  have s1: "slice text 0 startLength = take (nat startLength) text"
    using assms by (simp add: slice_def Let_def min_def)
  have s2: "slice_from text (- endLength) = drop (length text - nat endLength) text"
  proof -
    have "nat (int (length text) - endLength) = length text - nat endLength"
      using assms by linarith
    then show ?thesis
      using assms by (simp add: slice_from_def slice_def Let_def max_def)
  qed
  show ?thesis
    using assms ne by (simp add: truncate_def s1 s2)
qed

lemma truncate_end_positive:
  assumes "0 \<le> startLength" "startLength < int (length text)"
  shows "truncate text startLength endLength appendText (js ''end'')
         = take (nat startLength) text @ appendText"
proof -
  have ne: "text \<noteq> []" using assms by auto
  have s1: "slice text 0 startLength = take (nat startLength) text"
    using assms by (simp add: slice_def Let_def min_def)
  have "js ''end'' \<noteq> js ''center''" by (simp add: js_def)
  then show ?thesis
    using assms ne by (simp add: truncate_def s1)
qed

text \<open>
  C9 fails at \<open>endLength = 0\<close>: \<open>text.slice(-endLength)\<close> is then \<open>text.slice(0)\<close>, the whole
  text, and not its last 0 characters. For \<open>abcdefgh\<close>, \<open>startLength = 2\<close> and
  \<open>endLength = 0\<close> the text is longer than \<open>2 + 0 + 3\<close>, and the result is \<open>ab\<close>, nine
  stars and the whole of \<open>abcdefgh\<close>, where the first 2 characters, nine stars and the
  last 0 characters are \<open>ab*********\<close>. With a positive \<open>endLength\<close> the code does what C9
  says (\<open>truncate_center_positive\<close>, \<open>truncate_end_positive\<close>).
\<close>

theorem truncate_center_endLength_zero:
  "truncate (js ''abcdefgh'') 2 0 (js ''...'') (js ''center'') = js ''ab*********abcdefgh''
   \<and> truncate (js ''abcdefgh'') 2 0 (js ''...'') (js ''center'')
       \<noteq> take 2 (js ''abcdefgh'') @ js ''*********'' @ drop (8 - 0) (js ''abcdefgh'')"
  by (simp add: truncate_def slice_def slice_from_def js_def)

lemma formatCurrency_known:
  "map_of CURRENCY_SYMBOLS currency = Some symbol \<Longrightarrow> formatCurrency inherited currency = symbol"
  by (simp add: formatCurrency_def)

lemma formatCurrency_unknown:
  "map_of CURRENCY_SYMBOLS currency = None \<Longrightarrow> currency \<notin> set Object_prototype_keys \<Longrightarrow>
   formatCurrency inherited currency = js ''undefined''"
  by (simp add: formatCurrency_def)

text \<open>
  C7 fails on the code: for the unrecognized currency code \<open>XYZ\<close>, \<open>formatCurrency\<close>
  returns the string \<open>undefined\<close>, which is neither the input nor the empty string. A
  code of the table gives its symbol (\<open>USD\<close> gives \<open>$\<close>).
\<close>

theorem formatCurrency_unknown_code:
  "formatCurrency inherited (js ''XYZ'') = js ''undefined''
   \<and> formatCurrency inherited (js ''XYZ'') \<noteq> js ''XYZ''
   \<and> formatCurrency inherited (js ''XYZ'') \<noteq> []
   \<and> formatCurrency inherited (js ''USD'') = js ''$''"
  by (simp add: formatCurrency_def CURRENCY_SYMBOLS_def Object_prototype_keys_def js_def)

section \<open>Properties of buildFilters\<close>

lemmas buildFilters_eval = buildFilters_def each_key_def copy_field_def copy_locate_def
  get_prop_def set_prop_def array_index_def is_digit_def trim_def is_space_def js_def Let_def

lemma set_prop_new:
  "k \<noteq> js ''__proto__'' \<Longrightarrow> array_index k = None \<Longrightarrow> k \<notin> fst ` set ps \<Longrightarrow>
   set_prop k v ps = ps @ [(k, v)]"
  by (simp add: set_prop_def)

lemma each_key_plain:
  assumes "map_of filters (js ''kyc_status'') = None" "map_of filters (js ''sortField'') = None"
    "map_of filters (js ''sortDirection'') = None" "map_of filters (js ''locate'') = None"
  shows "each_key filters key parsed =
     Inr (let val = get_prop filters key
          in if val \<noteq> JNull \<and> val \<noteq> JUndefined \<and> val \<noteq> JStr []
             then set_prop key (case val of JStr s \<Rightarrow> JStr (trim s) | _ \<Rightarrow> val) parsed
             else parsed)"
  using assms by (simp add: each_key_def copy_field_def copy_locate_def get_prop_def Let_def)

lemma forEach_plain:
  assumes "map_of filters (js ''kyc_status'') = None" "map_of filters (js ''sortField'') = None"
    "map_of filters (js ''sortDirection'') = None" "map_of filters (js ''locate'') = None"
  shows "distinct (map fst fs) \<Longrightarrow> \<forall>(k, v) \<in> set fs. map_of filters k = Some v \<Longrightarrow>
     \<forall>k \<in> fst ` set fs. k \<noteq> js ''__proto__'' \<and> array_index k = None \<Longrightarrow>
     fst ` set fs \<inter> fst ` set parsed = {} \<Longrightarrow>
     forEach filters (map fst fs) parsed = Inr (parsed @ buildFilters_spec fs)"
proof (induction fs arbitrary: parsed)
  case Nil
  then show ?case by (simp add: buildFilters_spec_def)
next
  case (Cons p fs)
  obtain k v where p: "p = (k, v)" by (cases p)
  have val: "get_prop filters k = v" using Cons.prems p by (simp add: get_prop_def)
  have new: "k \<notin> fst ` set parsed" "k \<noteq> js ''__proto__''" "array_index k = None"
    using Cons.prems p by auto
  show ?case
  proof (cases "v \<noteq> JNull \<and> v \<noteq> JUndefined \<and> v \<noteq> JStr []")
    case True
    let ?v' = "case v of JStr s \<Rightarrow> JStr (trim s) | _ \<Rightarrow> v"
    have step: "each_key filters k parsed = Inr (parsed @ [(k, ?v')])"
      using True val new by (simp add: each_key_plain [OF assms] set_prop_new)
    have disj: "fst ` set fs \<inter> fst ` set (parsed @ [(k, ?v')]) = {}"
      using Cons.prems p by auto
    have "forEach filters (map fst fs) (parsed @ [(k, ?v')])
          = Inr ((parsed @ [(k, ?v')]) @ buildFilters_spec fs)"
      using Cons.prems by (intro Cons.IH disj) auto
    then show ?thesis
      using True p step by (simp add: buildFilters_spec_def)
  next
    case False
    have step: "each_key filters k parsed = Inr parsed"
      using False val by (auto simp: each_key_plain [OF assms])
    have disj: "fst ` set fs \<inter> fst ` set parsed = {}"
      using Cons.prems by auto
    have "forEach filters (map fst fs) parsed = Inr (parsed @ buildFilters_spec fs)"
      using Cons.prems by (intro Cons.IH disj) auto
    then show ?thesis
      using False p step by (auto simp: buildFilters_spec_def)
  qed
qed

lemma buildFilters_plain:
  assumes "distinct (map fst filters)"
    and "js ''kyc_status'' \<notin> fst ` set filters" "js ''sortField'' \<notin> fst ` set filters"
    and "js ''sortDirection'' \<notin> fst ` set filters" "js ''locate'' \<notin> fst ` set filters"
    and "\<forall>k \<in> fst ` set filters. k \<noteq> js ''__proto__'' \<and> array_index k = None"
  shows "buildFilters filters = Inr (buildFilters_spec filters)"
proof -
  have "\<forall>(k, v) \<in> set filters. map_of filters k = Some v"
    using assms(1) by auto
  then show ?thesis
    unfolding buildFilters_def
    using forEach_plain [of filters filters "[]"] assms
    by (simp add: map_of_eq_None_iff)
qed

text \<open>
  C8 fails on the code: for the object \<open>{ kyc_status: ' verified ', page: 1 }\<close> the result
  keeps \<open>kyc_status\<close> with its leading and trailing space, because each later key's
  iteration copies \<open>filters.kyc_status\<close> again, untrimmed, over the trimmed value; the
  specification's function gives \<open>'verified'\<close>. And \<open>{ locate: 5 }\<close> raises a
  \<open>TypeError\<close>, where the specification's function returns the object unchanged.
\<close>

theorem buildFilters_kyc_status_untrimmed:
  "buildFilters [(js ''kyc_status'', JStr (js '' verified '')), (js ''page'', JNum 1)]
     = Inr [(js ''kyc_status'', JStr (js '' verified '')), (js ''page'', JNum 1)]
   \<and> buildFilters_spec [(js ''kyc_status'', JStr (js '' verified '')), (js ''page'', JNum 1)]
     = [(js ''kyc_status'', JStr (js ''verified'')), (js ''page'', JNum 1)]
   \<and> buildFilters [(js ''locate'', JNum 5)] = Inl TypeError"
  by (simp add: buildFilters_eval buildFilters_spec_def)

section \<open>Random draws\<close>

lemma js_Nil_iff: "js s = [] \<longleftrightarrow> s = []"
  by (simp add: js_def)

lemma index_char_in_range:
  "0 \<le> i \<Longrightarrow> i < int (length s) \<Longrightarrow> index_char s i = Some (s ! nat i)"
  by (simp add: index_char_def)

lemma floor_draw_range:
  fixes r :: real and n :: int
  assumes "0 \<le> r" "r < 1" "0 < n"
  shows "0 \<le> Math_floor (r * real_of_int n) \<and> Math_floor (r * real_of_int n) < n"
proof -
  have "0 \<le> r * real_of_int n" using assms by simp
  moreover have "r * real_of_int n < real_of_int n" using assms by simp
  ultimately show ?thesis
    unfolding Math_floor_def by (simp add: floor_less_iff)
qed

lemma third_valid: "valid_random (\<lambda>i. 1 / 3)"
  by (simp add: valid_random_def)

section \<open>Properties of generateCoupon\<close>

lemma coupon_chars_empty_iff:
  "coupon_chars options = [] \<longleftrightarrow>
     \<not> default True (includeNumbers options) \<and> \<not> default True (includeUppercase options)
     \<and> \<not> default False (includeLowercase options)
     \<and> \<not> default False (includeSpecialChars options)"
  by (simp add: coupon_chars_def numbers_def uppercase_def lowercase_def special_def js_Nil_iff)

lemma coupon_loop_extends:
  "valid_random random \<Longrightarrow> chars \<noteq> [] \<Longrightarrow>
   \<exists>body. coupon_loop random chars len i coupon = coupon @ body
     \<and> int (length body) = max 0 (len - int i) \<and> set body \<subseteq> set chars"
proof (induction random chars len i coupon rule: coupon_loop.induct)
  case (1 random chars len i coupon)
  show ?case
  proof (cases "int i < len")
    case True
    let ?k = "Math_floor (random i * real (length chars))"
    have "0 \<le> random i" "random i < 1"
      using "1.prems" by (simp_all add: valid_random_def)
    then have k: "0 \<le> ?k \<and> ?k < int (length chars)"
      using floor_draw_range [of "random i" "int (length chars)"] "1.prems" by simp
    then have ic: "index_char chars ?k = Some (chars ! nat ?k)"
      by (simp add: index_char_in_range)
    have mem: "chars ! nat ?k \<in> set chars"
      using k by (intro nth_mem) auto
    obtain body where body:
      "coupon_loop random chars len (i + 1) (coupon @ [chars ! nat ?k]) = (coupon @ [chars ! nat ?k]) @ body"
      "int (length body) = max 0 (len - int (i + 1))" "set body \<subseteq> set chars"
      using "1.IH" [OF True refl "1.prems"] ic by auto
    have "coupon_loop random chars len i coupon = coupon @ (chars ! nat ?k # body)"
      using True body(1) ic by (subst coupon_loop.simps) (simp add: Let_def)
    moreover have "int (length (chars ! nat ?k # body)) = max 0 (len - int i)"
      using True body(2) by simp
    moreover have "set (chars ! nat ?k # body) \<subseteq> set chars"
      using body(3) mem by simp
    ultimately show ?thesis by blast
  next
    case False
    then have "coupon_loop random chars len i coupon = coupon"
      by (subst coupon_loop.simps) simp
    with False show ?thesis by simp
  qed
qed

lemma generateCoupon_error_iff:
  "(\<exists>e. generateCoupon random options = Inl e) \<longleftrightarrow> coupon_chars options = []"
  by (simp add: generateCoupon_def Let_def)

lemma generateCoupon_body:
  assumes "valid_random random" "coupon_chars options \<noteq> []"
  shows "\<exists>body. generateCoupon random options
           = Inr (strip_whitespace (default [] (prefix options) @ body @ default [] (suffix options)))
       \<and> int (length body) = max 0 (default 8 (couponLength options))
       \<and> set body \<subseteq> set (coupon_chars options)"
proof -
  obtain body where
    "coupon_loop random (coupon_chars options) (default 8 (couponLength options)) 0 [] = [] @ body"
    "int (length body) = max 0 (default 8 (couponLength options) - int 0)"
    "set body \<subseteq> set (coupon_chars options)"
    using coupon_loop_extends [OF assms] by blast
  then show ?thesis
    using assms(2) by (auto simp: generateCoupon_def Let_def)
qed

lemma ten_options_chars: "coupon_chars ten_options = numbers @ uppercase"
  by (simp add: coupon_chars_def ten_options_def default_def)

lemma digit_or_upper_not_space: "is_digit c \<or> is_upper c \<Longrightarrow> \<not> is_space c"
  by (auto simp: is_digit_def is_upper_def is_space_def)

lemma generateCoupon_ten:
  assumes "valid_random random"
  shows "\<exists>s. generateCoupon random ten_options = Inr s \<and> length s = 10
     \<and> list_all (\<lambda>c. is_digit c \<or> is_upper c) s"
proof -
  have ne: "coupon_chars ten_options \<noteq> []"
    by (simp add: ten_options_chars numbers_def js_Nil_iff)
  obtain body where body: "generateCoupon random ten_options
        = Inr (strip_whitespace (default [] (prefix ten_options) @ body
             @ default [] (suffix ten_options)))"
    "int (length body) = max 0 (default 8 (couponLength ten_options))"
    "set body \<subseteq> set (coupon_chars ten_options)"
    using generateCoupon_body [OF assms ne] by blast
  have "list_all is_digit numbers" "list_all is_upper uppercase"
    by (simp_all add: numbers_def uppercase_def js_def is_digit_def is_upper_def)
  then have cls: "list_all (\<lambda>c. is_digit c \<or> is_upper c) body"
    using body(3) unfolding ten_options_chars by (auto simp: list_all_iff)
  then have "\<forall>c\<in>set body. \<not> is_space c"
    using digit_or_upper_not_space unfolding list_all_iff by blast
  then have "strip_whitespace body = body"
    unfolding strip_whitespace_def by (intro filter_True)
  then have "generateCoupon random ten_options = Inr body"
    using body(1) by (simp add: ten_options_def default_def)
  moreover have "length body = 10"
    using body(2) by (simp add: ten_options_def default_def)
  ultimately show ?thesis using cls by blast
qed

lemma flag_on_default: "flag_on dflt flag = default dflt flag"
  by (cases flag) (auto simp: flag_on_def default_def)

lemma coupon_chars_classes: "c \<in> set (coupon_chars options) \<longleftrightarrow> in_selected_classes options c"
proof -
  have "c \<in> set numbers \<longleftrightarrow> c \<in> set decimal_digits"
    by (simp add: numbers_def decimal_digits_def)
  moreover have "c \<in> set special \<longleftrightarrow> c \<in> set (js ''!@#$%^&*()_+-=[]{}|;:,.<>?'')"
    by (simp add: special_def)
  ultimately show ?thesis
    unfolding coupon_chars_def in_selected_classes_def flag_on_default Let_def
    by (simp add: upper_iff lower_iff)
qed

lemma strip_whitespace_without: "strip_whitespace s = without white_space s"
  unfolding strip_whitespace_def without_def by (simp add: is_space_iff)

lemma spaced_options_chars: "coupon_chars spaced_options = numbers @ uppercase"
  by (simp add: coupon_chars_def spaced_options_def default_def)

lemma generateCoupon_spaced: "generateCoupon (\<lambda>i. 1 / 3) spaced_options = Inr (js ''ABCCC'')"
proof -
  have ne: "numbers \<noteq> []"
    by (simp add: numbers_def js_Nil_iff)
  have loop: "coupon_loop (\<lambda>i. 1 / 3) (numbers @ uppercase) 3 0 [] = js ''CCC''"
    by (simp add: coupon_loop.simps index_char_def Math_floor_def numbers_def uppercase_def js_def)
  have clean: "strip_whitespace (js ''A B '' @ js ''CCC'') = js ''ABCCC''"
    by (simp add: js_def strip_whitespace_def is_space_def)
  show ?thesis
    unfolding generateCoupon_def Let_def spaced_options_chars
    by (simp add: spaced_options_def default_def loop ne clean)
qed

text \<open>
  C5: \<open>generateCoupon\<close> raises an error exactly when no character class is selected
  (all four \<open>include\<close> flags off, after the defaults), and its alphabet holds exactly
  the characters of the selected classes. Otherwise, for every outcome of the draws,
  it returns \<open>prefix + body + suffix\<close> without any white-space character, where \<open>body\<close>
  has \<open>length\<close> characters (none when \<open>length\<close> is negative), each of a selected class.
  The call with \<open>length: 10\<close>, numbers and uppercase always returns 10 characters that
  are digits or uppercase letters.
\<close>

theorem generateCoupon_result:
  "((\<exists>e. generateCoupon random options = Inl e) \<longleftrightarrow>
       \<not> flag_on True (includeNumbers options) \<and> \<not> flag_on True (includeUppercase options)
       \<and> \<not> flag_on False (includeLowercase options)
       \<and> \<not> flag_on False (includeSpecialChars options))
   \<and> (\<forall>c. c \<in> set (coupon_chars options) \<longleftrightarrow> in_selected_classes options c)
   \<and> (valid_random random \<and> (\<exists>c. in_selected_classes options c) \<longrightarrow>
       (\<exists>body. generateCoupon random options
           = Inr (without white_space
                ((case prefix options of None \<Rightarrow> [] | Some p \<Rightarrow> p) @ body
                 @ (case suffix options of None \<Rightarrow> [] | Some x \<Rightarrow> x)))
         \<and> int (length body) = max 0 (case couponLength options of None \<Rightarrow> 8 | Some n \<Rightarrow> n)
         \<and> list_all (in_selected_classes options) body))
   \<and> (valid_random random \<longrightarrow>
       (\<exists>s. generateCoupon random ten_options = Inr s \<and> length s = 10
         \<and> list_all (\<lambda>c. c \<in> set decimal_digits \<or> is_upper c) s))"
proof (intro conjI allI impI)
  show "(\<exists>e. generateCoupon random options = Inl e) \<longleftrightarrow>
       \<not> flag_on True (includeNumbers options) \<and> \<not> flag_on True (includeUppercase options)
       \<and> \<not> flag_on False (includeLowercase options)
       \<and> \<not> flag_on False (includeSpecialChars options)"
    by (simp add: flag_on_default generateCoupon_error_iff coupon_chars_empty_iff)
  show "c \<in> set (coupon_chars options) \<longleftrightarrow> in_selected_classes options c" for c
    by (rule coupon_chars_classes)
  show "\<exists>body. generateCoupon random options
           = Inr (without white_space
                ((case prefix options of None \<Rightarrow> [] | Some p \<Rightarrow> p) @ body
                 @ (case suffix options of None \<Rightarrow> [] | Some x \<Rightarrow> x)))
         \<and> int (length body) = max 0 (case couponLength options of None \<Rightarrow> 8 | Some n \<Rightarrow> n)
         \<and> list_all (in_selected_classes options) body"
    if prem: "valid_random random \<and> (\<exists>c. in_selected_classes options c)"
  proof -
    have "coupon_chars options \<noteq> []"
      using prem coupon_chars_classes [of _ options] by fastforce
    then obtain body where body: "generateCoupon random options
           = Inr (strip_whitespace (default [] (prefix options) @ body @ default [] (suffix options)))"
        "int (length body) = max 0 (default 8 (couponLength options))"
        "set body \<subseteq> set (coupon_chars options)"
      using generateCoupon_body [of random options] prem by blast
    have "list_all (in_selected_classes options) body"
      using body(3) coupon_chars_classes [of _ options] by (auto simp: list_all_iff)
    then show ?thesis
      using body(1,2) unfolding strip_whitespace_without default_def by blast
  qed
  show "\<exists>s. generateCoupon random ten_options = Inr s \<and> length s = 10
         \<and> list_all (\<lambda>c. c \<in> set decimal_digits \<or> is_upper c) s"
    if "valid_random random"
    using generateCoupon_ten [OF that] by (simp add: is_digit_iff)
qed

text \<open>With the prefix \<open>'A B '\<close>, the length 3 and every draw \<open>1/3\<close> the coupon is
  \<open>ABCCC\<close>: the spaces of the prefix are gone.\<close>

theorem generateCoupon_result_witness:
  "valid_random (\<lambda>i. 1 / 3) \<and> in_selected_classes spaced_options 67
   \<and> generateCoupon (\<lambda>i. 1 / 3) spaced_options = Inr (js ''ABCCC'')
   \<and> (\<exists>body. Inr (js ''ABCCC'')
           = (Inr (without white_space
                ((case prefix spaced_options of None \<Rightarrow> [] | Some p \<Rightarrow> p) @ body
                 @ (case suffix spaced_options of None \<Rightarrow> [] | Some x \<Rightarrow> x)))
              :: error + jsstring)
         \<and> int (length body)
           = max 0 (case couponLength spaced_options of None \<Rightarrow> 8 | Some n \<Rightarrow> n)
         \<and> list_all (in_selected_classes spaced_options) body)
   \<and> (\<exists>s. generateCoupon (\<lambda>i. 1 / 3) ten_options = Inr s \<and> length s = 10
         \<and> list_all (\<lambda>c. c \<in> set decimal_digits \<or> is_upper c) s)"
proof -
  have sel: "in_selected_classes spaced_options 67"
    by (simp add: in_selected_classes_def spaced_options_def flag_on_def is_upper_def)
  show ?thesis
    using generateCoupon_result [of "\<lambda>i. 1 / 3" spaced_options] third_valid sel
      generateCoupon_spaced
    by (simp only:) blast
qed

section \<open>Properties of generateRandomPassword\<close>

lemmas randomChar_eval = randomChar_def index_char_def Math_floor_def charset_def js_def

lemma charset_length: "length charset = 70"
  by (simp add: charset_def js_def)

lemma randomChar_range:
  assumes "0 \<le> r" "r < 1" "0 \<le> lo" "lo \<le> hi" "hi < 70"
  shows "\<exists>k. nat lo \<le> k \<and> k \<le> nat hi \<and> randomChar r lo hi = Some (charset ! k)"
proof -
  let ?d = "Math_floor (r * real_of_int (hi - lo + 1))"
  have d: "0 \<le> ?d \<and> ?d < hi - lo + 1"
    using assms by (intro floor_draw_range) auto
  then have "0 \<le> ?d + lo" "?d + lo < int (length charset)"
    using assms by (auto simp: charset_length)
  then have "randomChar r lo hi = Some (charset ! nat (?d + lo))"
    unfolding randomChar_def by (rule index_char_in_range)
  moreover have "nat lo \<le> nat (?d + lo)" "nat (?d + lo) \<le> nat hi"
    using d assms by auto
  ultimately show ?thesis by blast
qed

lemma segment_class:
  assumes "list_all P (take n (drop m xs))" "m \<le> k" "k < m + n" "k < length xs"
  shows "P (xs ! k)"
proof -
  have "k - m < length (take n (drop m xs))" using assms by auto
  then have "P (take n (drop m xs) ! (k - m))"
    using assms(1) by (simp add: list_all_length)
  then show ?thesis using assms by simp
qed

lemma charset_lower: "k \<le> 25 \<Longrightarrow> is_lower (charset ! k)"
  by (rule segment_class [where n = 26 and m = 0])
    (simp_all add: charset_def js_def is_lower_def)

lemma charset_upper: "26 \<le> k \<Longrightarrow> k \<le> 51 \<Longrightarrow> is_upper (charset ! k)"
  by (rule segment_class [where n = 26 and m = 26])
    (simp_all add: charset_def js_def is_upper_def)

lemma charset_digit: "52 \<le> k \<Longrightarrow> k \<le> 61 \<Longrightarrow> is_digit (charset ! k)"
  by (rule segment_class [where n = 10 and m = 52])
    (simp_all add: charset_def js_def is_digit_def)

lemma charset_symbol: "62 \<le> k \<Longrightarrow> k \<le> 68 \<Longrightarrow> is_symbol (charset ! k)"
  by (rule segment_class [where n = 7 and m = 62])
    (simp_all add: charset_def js_def is_symbol_def)

lemma fill_loop_extends:
  "valid_random random \<Longrightarrow>
   \<exists>extra. fill_loop random len password = password @ extra
     \<and> int (length (password @ extra)) = max len (int (length password))
     \<and> list_all (\<lambda>x. x \<noteq> None) extra"
proof (induction random len password rule: fill_loop.induct)
  case (1 random len password)
  show ?case
  proof (cases "int (length password) < len")
    case True
    let ?x = "randomChar (random (length password)) 0 (int (length charset) - 1)"
    have "0 \<le> random (length password)" "random (length password) < 1"
      using "1.prems" by (simp_all add: valid_random_def)
    then obtain k where x: "?x = Some (charset ! k)"
      using randomChar_range [of "random (length password)" 0 "int (length charset) - 1"]
      by (auto simp: charset_length)
    obtain extra where extra: "fill_loop random len (password @ [?x]) = (password @ [?x]) @ extra"
      "int (length ((password @ [?x]) @ extra)) = max len (int (length (password @ [?x])))"
      "list_all (\<lambda>x. x \<noteq> None) extra"
      using "1.IH" [OF True "1.prems"] by blast
    have "fill_loop random len password = password @ (?x # extra)"
      using True extra(1) by (subst fill_loop.simps) simp
    moreover have "int (length (password @ (?x # extra))) = max len (int (length password))"
      using True extra(2) by simp
    moreover have "list_all (\<lambda>x. x \<noteq> None) (?x # extra)"
      using extra(3) x by simp
    ultimately show ?thesis by blast
  next
    case False
    then have "fill_loop random len password = password"
      by (subst fill_loop.simps) simp
    with False show ?thesis by simp
  qed
qed

lemma join_length: "list_all (\<lambda>x. x \<noteq> None) xs \<Longrightarrow> length (join xs) = length xs"
  by (induction xs) (auto simp: join_def)

lemma join_member: "Some c \<in> set xs \<Longrightarrow> c \<in> set (join xs)"
  by (auto simp: join_def intro!: bexI [where x = "Some c"])

lemma generateRandomPassword_four_classes:
  assumes "valid_random random" "rearranges shuffle"
  shows "int (length (generateRandomPassword shuffle random len)) = max len 4
     \<and> list_ex is_lower (generateRandomPassword shuffle random len)
     \<and> list_ex is_upper (generateRandomPassword shuffle random len)
     \<and> list_ex is_digit (generateRandomPassword shuffle random len)
     \<and> list_ex is_symbol (generateRandomPassword shuffle random len)"
proof -
  have r: "0 \<le> random i" "random i < 1" for i
    using assms(1) by (simp_all add: valid_random_def)
  obtain a where a: "randomChar (random 0) 0 25 = Some (charset ! a)" "a \<le> 25"
    using randomChar_range [of "random 0" 0 25] r by auto
  obtain b where b: "randomChar (random 1) 26 51 = Some (charset ! b)" "26 \<le> b" "b \<le> 51"
    using randomChar_range [of "random 1" 26 51] r by auto
  obtain c where c: "randomChar (random 2) 52 61 = Some (charset ! c)" "52 \<le> c" "c \<le> 61"
    using randomChar_range [of "random 2" 52 61] r by auto
  obtain d where d: "randomChar (random 3) 62 68 = Some (charset ! d)" "62 \<le> d" "d \<le> 68"
    using randomChar_range [of "random 3" 62 68] r by auto
  let ?first = "[Some (charset ! a), Some (charset ! b), Some (charset ! c), Some (charset ! d)]"
  obtain extra where extra: "fill_loop random len ?first = ?first @ extra"
    "int (length (?first @ extra)) = max len (int (length ?first))"
    "list_all (\<lambda>x. x \<noteq> None) extra"
    using fill_loop_extends [OF assms(1), of len ?first] by blast
  let ?password = "?first @ extra"
  have gen: "generateRandomPassword shuffle random len = join (shuffle ?password)"
    unfolding generateRandomPassword_def Let_def a(1) b(1) c(1) d(1) extra(1) by (rule refl)
  have perm: "mset (shuffle ?password) = mset ?password"
    using assms(2) by (simp add: rearranges_def)
  have same_set: "set (shuffle ?password) = set ?password"
    using perm by (rule mset_eq_setD)
  have same_length: "length (shuffle ?password) = length ?password"
    using perm by (rule mset_eq_length)
  have "list_all (\<lambda>x. x \<noteq> None) ?password"
    using extra(3) by simp
  then have "list_all (\<lambda>x. x \<noteq> None) (shuffle ?password)"
    using same_set by (simp add: list_all_iff)
  then have "length (join (shuffle ?password)) = length ?password"
    using same_length by (simp add: join_length)
  then have len: "int (length (generateRandomPassword shuffle random len)) = max len 4"
    using extra(2) gen by simp
  have mem: "charset ! k \<in> set (generateRandomPassword shuffle random len)"
    if "Some (charset ! k) \<in> set ?first" for k
  proof -
    have "Some (charset ! k) \<in> set (shuffle ?password)"
      using that same_set by auto
    then show ?thesis unfolding gen by (rule join_member)
  qed
  have "list_ex is_lower (generateRandomPassword shuffle random len)"
    using mem [of a] charset_lower [OF a(2)] by (auto simp: list_ex_iff)
  moreover have "list_ex is_upper (generateRandomPassword shuffle random len)"
    using mem [of b] charset_upper [OF b(2,3)] by (auto simp: list_ex_iff)
  moreover have "list_ex is_digit (generateRandomPassword shuffle random len)"
    using mem [of c] charset_digit [OF c(2,3)] by (auto simp: list_ex_iff)
  moreover have "list_ex is_symbol (generateRandomPassword shuffle random len)"
    using mem [of d] charset_symbol [OF d(2,3)] by (auto simp: list_ex_iff)
  ultimately show ?thesis using len by simp
qed

lemma generateRandomPassword_third:
  "generateRandomPassword id (\<lambda>i. 1 / 3) 8 = js ''iI3#xxxx''"
proof -
  have r0: "randomChar (1 / 3) 0 25 = Some 105" by (simp add: randomChar_eval)
  have r1: "randomChar (1 / 3) 26 51 = Some 73" by (simp add: randomChar_eval)
  have r2: "randomChar (1 / 3) 52 61 = Some 51" by (simp add: randomChar_eval)
  have r3: "randomChar (1 / 3) 62 68 = Some 35" by (simp add: randomChar_eval)
  have r4: "randomChar (1 / 3) 0 (int (length charset) - 1) = Some 120"
    unfolding charset_length by (simp add: randomChar_eval)
  have fill: "fill_loop (\<lambda>i. 1 / 3) 8 [Some 105, Some 73, Some 51, Some 35]
     = [Some 105, Some 73, Some 51, Some 35, Some 120, Some 120, Some 120, Some 120]"
    by (simp add: fill_loop.simps r4)
  show ?thesis
    by (simp add: generateRandomPassword_def r0 r1 r2 r3 fill join_def js_def)
qed

lemma id_rearranges: "rearranges (id :: 'a list \<Rightarrow> 'a list)"
  by (simp add: rearranges_def)

text \<open>
  C6: for every requested length and every outcome of the draws and of the shuffle,
  \<open>generateRandomPassword(length)\<close> has \<open>max(length, 4)\<close> characters, among them a
  lowercase letter, an uppercase letter, a digit and a symbol of \<open>!@#$%&*?\<close>; so a
  length below 4 still gives the four guaranteed characters, and
  \<open>generateRandomPassword(8)\<close> has 8 characters.
\<close>

theorem generateRandomPassword_classes:
  assumes "valid_random random" "rearranges shuffle"
  shows "int (length (generateRandomPassword shuffle random len)) = max len 4
     \<and> list_ex is_lower (generateRandomPassword shuffle random len)
     \<and> list_ex is_upper (generateRandomPassword shuffle random len)
     \<and> list_ex is_digit (generateRandomPassword shuffle random len)
     \<and> list_ex is_symbol (generateRandomPassword shuffle random len)
     \<and> length (generateRandomPassword shuffle random 8) = 8"
  using generateRandomPassword_four_classes [OF assms, of len]
    generateRandomPassword_four_classes [OF assms, of 8]
  by simp

text \<open>The draws that are all \<open>1/3\<close>, left in place by the shuffle, give \<open>iI3#xxxx\<close>.\<close>

theorem generateRandomPassword_classes_witness:
  "valid_random (\<lambda>i. 1 / 3) \<and> rearranges (id :: jschar option list \<Rightarrow> jschar option list)
   \<and> generateRandomPassword id (\<lambda>i. 1 / 3) 8 = js ''iI3#xxxx''
   \<and> int (length (generateRandomPassword id (\<lambda>i. 1 / 3) 8)) = max 8 4
   \<and> list_ex is_lower (generateRandomPassword id (\<lambda>i. 1 / 3) 8)
   \<and> list_ex is_upper (generateRandomPassword id (\<lambda>i. 1 / 3) 8)
   \<and> list_ex is_digit (generateRandomPassword id (\<lambda>i. 1 / 3) 8)
   \<and> list_ex is_symbol (generateRandomPassword id (\<lambda>i. 1 / 3) 8)"
  using generateRandomPassword_classes [OF third_valid id_rearranges, of 8]
    third_valid id_rearranges generateRandomPassword_third
  by simp

text \<open>
  C10: there are outcomes of the draws for which \<open>generateRandomPassword(8)\<close> fails
  \<open>isValidPassword(p, 8)\<close>: with every draw \<open>1/3\<close> the guaranteed symbol is
  \<open>charset[64]\<close>, which is \<open>#\<close>, a character that the validator does not permit.
\<close>

theorem generateRandomPassword_not_always_valid:
  "(\<exists>random shuffle. valid_random random \<and> rearranges shuffle
      \<and> \<not> isValidPassword (generateRandomPassword shuffle random 8) 8)
   \<and> randomChar (1 / 3) 62 68 = index_char charset 64
   \<and> index_char charset 64 = Some 35 \<and> js ''#'' = [35]
   \<and> is_symbol 35 \<and> \<not> is_password_char 35"
proof -
  have "\<not> isValidPassword (generateRandomPassword id (\<lambda>i. 1 / 3) 8) 8"
    unfolding generateRandomPassword_third
    by (simp add: isValidPassword_def lookahead_def js_def char_class_defs)
  then have "\<exists>random shuffle. valid_random random \<and> rearranges shuffle
      \<and> \<not> isValidPassword (generateRandomPassword shuffle random 8) 8"
    using third_valid id_rearranges by blast
  moreover have "randomChar (1 / 3) 62 68 = index_char charset 64"
    by (simp add: randomChar_def Math_floor_def)
  moreover have "index_char charset 64 = Some 35"
    by (simp add: index_char_def charset_def js_def)
  moreover have "js ''#'' = [35]" "is_symbol 35" "\<not> is_password_char 35"
    by (simp_all add: js_def is_symbol_def char_class_defs)
  ultimately show ?thesis by simp
qed

section \<open>Properties of throttle\<close>

lemma throttle_wf_init: "throttle_wf throttle_init"
  by (simp add: throttle_wf_def throttle_init_def)

lemma throttled_returns:
  "throttled limit t args Returns s =
     (if \<not> inThrottle s
      then (Normal, s\<lparr>throttle_calls := throttle_calls s @ [args], inThrottle := True,
                      throttle_timers := throttle_timers s @ [t + limit]\<rparr>)
      else (Normal, s))"
  by simp

lemma throttle_wf_step:
  assumes "always_returns func" "throttle_wf s"
  shows "throttle_wf (throttle_step limit func e s)"
proof (cases e)
  case (Pair t ev)
  show ?thesis
  proof (cases ev)
    case (Invoke args)
    have "func args = Returns" using assms(1) by (simp add: always_returns_def)
    with Pair Invoke assms(2) show ?thesis
      by (auto simp: throttle_wf_def split: if_splits)
  next
    case Tick
    with Pair assms(2) show ?thesis
      by (cases "throttle_timers s")
        (auto simp: throttle_wf_def throttle_tick_def split: if_splits)
  qed
qed

lemma throttle_wf_trace:
  "always_returns func \<Longrightarrow> throttle_wf s \<Longrightarrow> throttle_wf (throttle_trace limit func es s)"
  by (induction es arbitrary: s) (simp_all add: throttle_wf_step)

lemma throttled_idle:
  assumes "throttle_wf s" "\<not> inThrottle s"
  shows "throttled limit t args Returns s
         = (Normal, s\<lparr>throttle_calls := throttle_calls s @ [args], inThrottle := True,
                      throttle_timers := [t + limit]\<rparr>)"
  using assms by (simp add: throttle_wf_def)

lemma throttled_dropped: "inThrottle s \<Longrightarrow> throttled limit t args r s = (Normal, s)"
  by simp

lemma throttle_window:
  assumes "inThrottle s" "throttle_timers s = [deadline]"
    and "list_all (\<lambda>e. fst e < deadline) es"
  shows "throttle_trace limit func es s = s"
  using assms(3)
proof (induction es)
  case Nil
  then show ?case by simp
next
  case (Cons e es)
  obtain t ev where e: "e = (t, ev)" by (cases e)
  have "throttle_step limit func e s = s"
    using Cons.prems assms(1,2) e
    by (cases ev) (simp_all add: throttle_tick_def)
  with Cons show ?case by simp
qed

lemma throttle_burst:
  assumes "throttle_wf s" "\<not> inThrottle s" "func args = Returns"
    and "list_all (\<lambda>e. fst e < t + limit) burst"
  shows "throttle_trace limit func ((t, Invoke args) # burst) s
         = s\<lparr>throttle_calls := throttle_calls s @ [args], inThrottle := True,
             throttle_timers := [t + limit]\<rparr>"
proof -
  let ?s' = "s\<lparr>throttle_calls := throttle_calls s @ [args], inThrottle := True,
             throttle_timers := [t + limit]\<rparr>"
  have "throttle_trace limit func burst ?s' = ?s'"
    using assms(4) by (intro throttle_window [where deadline = "t + limit"]) simp_all
  then show ?thesis
    using assms(1,2,3) by (simp add: throttled_idle del: throttled.simps)
qed

lemma throttle_expiry:
  assumes "throttle_timers s = [deadline]" "deadline \<le> u"
  shows "\<not> inThrottle (throttle_tick u s) \<and> throttle_timers (throttle_tick u s) = []"
  using assms by (simp add: throttle_tick_def)

text \<open>
  C1, as the code has it, for an action that returns from every call without calling
  the wrapper: in every state \<open>s\<close> that a wrapper returned by \<open>throttle(action, limit)\<close>
  reaches, a call made while no cooldown is active (the first call, or the first after
  a cooldown has expired) calls \<open>action\<close> at once with its own arguments and opens a
  cooldown that lasts \<open>limit\<close>; a call made during the cooldown changes nothing (no
  call of \<open>action\<close>, nothing queued, no error). So for a burst inside one cooldown
  window (its first call opens the window, and every later call and turn of the event
  loop comes less than \<open>limit\<close> after that call), \<open>action\<close> runs exactly once, with
  the arguments of the first call; and the cooldown is over once the event loop turns
  at or after \<open>limit\<close> has elapsed.
\<close>

theorem throttle_leading_edge:
  assumes "always_returns func"
    and "s = throttle_trace limit func history throttle_init"
  shows "(\<not> inThrottle s \<longrightarrow>
            throttled limit t args (func args) s
            = (Normal, s\<lparr>throttle_calls := throttle_calls s @ [args], inThrottle := True,
                         throttle_timers := [t + limit]\<rparr>))
     \<and> (inThrottle s \<longrightarrow> throttled limit t args (func args) s = (Normal, s))
     \<and> (\<not> inThrottle s \<and> list_all (\<lambda>e. fst e < t + limit) burst \<longrightarrow>
            throttle_trace limit func ((t, Invoke args) # burst) s
            = s\<lparr>throttle_calls := throttle_calls s @ [args], inThrottle := True,
                throttle_timers := [t + limit]\<rparr>
          \<and> throttle_calls (throttle_trace limit func ((t, Invoke args) # burst) s)
            = throttle_calls s @ [args]
          \<and> (\<forall>u. t + limit \<le> u \<longrightarrow>
                \<not> inThrottle
                    (throttle_tick u (throttle_trace limit func ((t, Invoke args) # burst) s))))"
proof -
  have wf: "throttle_wf s"
    unfolding assms(2) by (intro throttle_wf_trace throttle_wf_init assms(1))
  have ret: "func args = Returns"
    using assms(1) by (simp add: always_returns_def)
  show ?thesis
    unfolding ret
    using throttled_idle [OF wf, of limit t args] throttled_dropped [of s limit t args Returns]
      throttle_burst [where func = func and args = args, OF wf _ ret, of t limit burst]
    by (auto simp: throttle_expiry simp del: throttled.simps)
qed

lemma returns_always: "always_returns (\<lambda>a. Returns)"
  by (simp add: always_returns_def)

text \<open>A throttle of 100 ms around an action that returns, called at 0, 10 and 99 ms,
  runs the first call only; a call at 40 ms after a call at 0 ms is dropped.\<close>

theorem throttle_leading_edge_witness:
  "always_returns (\<lambda>a::nat. Returns)
   \<and> \<not> inThrottle (throttle_trace 100 (\<lambda>a. Returns) [] (throttle_init :: nat throttle_state))
   \<and> list_all (\<lambda>e. fst e < (0::nat) + 100) [(10, Invoke (2::nat)), (50, Tick), (99, Invoke 3)]
   \<and> throttle_calls (throttle_trace 100 (\<lambda>a. Returns)
        [(0, Invoke 1), (10, Invoke 2), (50, Tick), (99, Invoke 3)]
        (throttle_init :: nat throttle_state)) = [1]
   \<and> \<not> inThrottle (throttle_tick 100
        (throttle_trace 100 (\<lambda>a. Returns) [(0, Invoke 1), (10, Invoke 2), (50, Tick), (99, Invoke 3)]
          (throttle_init :: nat throttle_state)))
   \<and> inThrottle (throttle_trace 100 (\<lambda>a. Returns) [(0, Invoke (1::nat))] throttle_init)
   \<and> throttled 100 40 (2::nat) Returns (throttle_trace 100 (\<lambda>a. Returns) [(0, Invoke 1)] throttle_init)
       = (Normal, throttle_trace 100 (\<lambda>a. Returns) [(0, Invoke 1)] throttle_init)"
  using throttle_leading_edge [OF returns_always, of "throttle_init :: nat throttle_state" 100 "[]" 0 1
      "[(10, Invoke 2), (50, Tick), (99, Invoke 3)]"]
    throttle_leading_edge [OF returns_always,
      of "throttle_trace 100 (\<lambda>a. Returns) [(0, Invoke (1::nat))] throttle_init" 100
      "[(0, Invoke 1)]" 40 2 "[]"]
    returns_always [where 'a = nat]
  by (simp add: throttle_init_def throttle_tick_def)

text \<open>
  C1 as stated fails, because \<open>func(...args)\<close> runs before \<open>inThrottle = true\<close>. When the
  action throws, the call of the wrapper raises the error, no cooldown opens, and a
  second call 10 ms later, inside the window of 100 ms, runs the action again. When
  the action, called with 1, calls the wrapper with 2, that inner call finds no
  cooldown and runs the action a second time within the one outer call.
\<close>

theorem throttle_action_runs_twice:
  "list_all (\<lambda>e. fst e < (0::nat) + 100) [(10, Invoke (2::nat))]
   \<and> fst (throttled 100 0 (1::nat) Throws throttle_init) = Abrupt
   \<and> \<not> inThrottle (snd (throttled 100 0 (1::nat) Throws throttle_init))
   \<and> throttle_calls (throttle_trace 100 (\<lambda>a. Throws) [(0, Invoke (1::nat)), (10, Invoke 2)]
        throttle_init) = [1, 2]
   \<and> throttle_calls (throttle_trace 100 (\<lambda>a. if a = 1 then Reenters 2 Returns else Returns)
        [(0, Invoke (1::nat))] throttle_init) = [1, 2]"
  by (simp add: throttle_init_def)

section \<open>Properties of debounce\<close>

lemma debounce_wf_init: "debounce_wf debounce_init"
  by (simp add: debounce_wf_def debounce_init_def)

lemma debounced_cancels:
  assumes "debounce_wf s"
  shows "debounced delay t args s
         = s\<lparr>debounce_timers := [(nextId s, t + delay, args)], nextId := nextId s + 1,
             timeoutId := Some (nextId s)\<rparr>"
  using assms
  by (cases "debounce_timers s")
    (auto simp: debounce_wf_def debounced_def clearTimeout_def setTimeout_def)

lemma debounce_tick_wf: "debounce_wf s \<Longrightarrow> debounce_wf (debounce_tick t s)"
  by (cases "debounce_timers s") (auto simp: debounce_wf_def debounce_tick_def)

lemma debounce_wf_step: "debounce_wf s \<Longrightarrow> debounce_wf (debounce_step delay e s)"
proof (cases e)
  case (Pair t ev)
  assume wf: "debounce_wf s"
  show ?thesis
  proof (cases ev)
    case (Invoke args)
    with Pair wf show ?thesis
      by (simp add: debounced_cancels) (simp add: debounce_wf_def)
  next
    case Tick
    with Pair wf show ?thesis by (simp add: debounce_tick_wf)
  qed
qed

lemma debounce_wf_trace: "debounce_wf s \<Longrightarrow> debounce_wf (debounce_trace delay es s)"
  by (induction es arbitrary: s) (simp_all add: debounce_wf_step)

lemma debounce_tick_early:
  assumes "debounce_timers s = [(i, deadline, args)]" "t < deadline"
  shows "debounce_tick t s = s"
  using assms by (simp add: debounce_tick_def)

lemma debounce_tick_due:
  assumes "debounce_timers s = [(i, deadline, args)]" "deadline \<le> u"
  shows "debounce_calls (debounce_tick u s) = debounce_calls s @ [args]
     \<and> debounce_timers (debounce_tick u s) = []"
  using assms by (simp add: debounce_tick_def)

lemma debounce_quiet:
  assumes "quiet_burst delay prev now es"
    and "debounce_timers s = [(i, prev + delay, args)]" "timeoutId s = Some i"
    and "last_call args prev es = (args', prev')"
  shows "debounce_calls (debounce_trace delay es s) = debounce_calls s
     \<and> (\<exists>i'. debounce_timers (debounce_trace delay es s) = [(i', prev' + delay, args')])"
  using assms
proof (induction es arbitrary: s i prev now args)
  case Nil
  then show ?case by simp
next
  case (Cons e es)
  obtain t ev where e: "e = (t, ev)" by (cases e)
  show ?case
  proof (cases ev)
    case (Invoke a)
    have wf: "debounce_wf s"
      using Cons.prems(2,3) by (simp add: debounce_wf_def)
    let ?s' = "debounced delay t a s"
    have s': "debounce_timers ?s' = [(nextId s, t + delay, a)]"
      "timeoutId ?s' = Some (nextId s)" "debounce_calls ?s' = debounce_calls s"
      by (simp_all add: debounced_cancels [OF wf])
    have "debounce_calls (debounce_trace delay es ?s') = debounce_calls ?s'
       \<and> (\<exists>i'. debounce_timers (debounce_trace delay es ?s') = [(i', prev' + delay, args')])"
      using Cons.prems(1,4) e Invoke by (intro Cons.IH [where now = t, OF _ s'(1,2)]) simp_all
    then show ?thesis
      using e Invoke s'(3) by simp
  next
    case Tick
    have same: "debounce_tick t s = s"
    proof (rule debounce_tick_early)
      show "debounce_timers s = [(i, prev + delay, args)]" by (rule Cons.prems(2))
      show "t < prev + delay" using Cons.prems(1) e Tick by simp
    qed
    have "debounce_calls (debounce_trace delay es s) = debounce_calls s
       \<and> (\<exists>i'. debounce_timers (debounce_trace delay es s) = [(i', prev' + delay, args')])"
      using Cons.prems e Tick by (intro Cons.IH [where now = t and i = i and args = args]) simp_all
    then show ?thesis
      using e Tick same by simp
  qed
qed

text \<open>
  C2: in every state \<open>s\<close> that a wrapper returned by \<open>debounce(action, delay)\<close> reaches,
  a call leaves its own timer as the only pending one (the timer of the call before
  is cancelled). For a burst of calls, each less than \<open>delay\<close> after the one before,
  \<open>action\<close> is not called as long as the burst lasts, and once the event loop turns at
  or after \<open>delay\<close> has elapsed since the last call, \<open>action\<close> has been called exactly
  once more, with the arguments of the last call, and no timer is left.
\<close>

theorem debounce_trailing_edge:
  assumes "s = debounce_trace delay history debounce_init"
    and "quiet_burst delay t t burst"
    and "last_call args t burst = (args', t')"
  shows "debounce_timers (debounced delay t args s) = [(nextId s, t + delay, args)]
     \<and> debounce_calls (debounce_trace delay ((t, Invoke args) # burst) s) = debounce_calls s
     \<and> (\<forall>u. t' + delay \<le> u \<longrightarrow>
           debounce_calls (debounce_tick u (debounce_trace delay ((t, Invoke args) # burst) s))
             = debounce_calls s @ [args']
           \<and> debounce_timers (debounce_tick u (debounce_trace delay ((t, Invoke args) # burst) s))
             = [])"
proof -
  have wf: "debounce_wf s"
    unfolding assms(1) by (intro debounce_wf_trace debounce_wf_init)
  let ?s' = "debounced delay t args s"
  have s': "debounce_timers ?s' = [(nextId s, t + delay, args)]"
    "timeoutId ?s' = Some (nextId s)" "debounce_calls ?s' = debounce_calls s"
    by (simp_all add: debounced_cancels [OF wf])
  obtain i' where quiet: "debounce_calls (debounce_trace delay burst ?s') = debounce_calls s"
    "debounce_timers (debounce_trace delay burst ?s') = [(i', t' + delay, args')]"
    using debounce_quiet [OF assms(2) s'(1,2) assms(3)] s'(3) by auto
  show ?thesis
    using s'(1) quiet debounce_tick_due [OF quiet(2)] by simp
qed

text \<open>A debounce of 100 ms called at 0, 10 and 99 ms has called nothing at 150 ms, and
  at 199 ms it has called the action once, with the arguments of the third call.\<close>

theorem debounce_trailing_edge_witness:
  "quiet_burst 100 0 0 [(10, Invoke (2::nat)), (50, Tick), (99, Invoke 3), (150, Tick)]
   \<and> last_call (1::nat) 0 [(10, Invoke 2), (50, Tick), (99, Invoke 3), (150, Tick)] = (3, 99)
   \<and> debounce_calls (debounce_trace 100
        [(0, Invoke (1::nat)), (10, Invoke 2), (50, Tick), (99, Invoke 3), (150, Tick)]
        debounce_init) = []
   \<and> debounce_calls (debounce_tick 199 (debounce_trace 100
        [(0, Invoke (1::nat)), (10, Invoke 2), (50, Tick), (99, Invoke 3), (150, Tick)]
        debounce_init)) = [3]
   \<and> debounce_timers (debounce_tick 199 (debounce_trace 100
        [(0, Invoke (1::nat)), (10, Invoke 2), (50, Tick), (99, Invoke 3), (150, Tick)]
        debounce_init)) = []"
proof -
  have q: "quiet_burst 100 0 0 [(10, Invoke (2::nat)), (50, Tick), (99, Invoke 3), (150, Tick)]"
    by simp
  have l: "last_call (1::nat) 0 [(10, Invoke 2), (50, Tick), (99, Invoke 3), (150, Tick)] = (3, 99)"
    by simp
  have s: "(debounce_init :: nat debounce_state) = debounce_trace 100 [] debounce_init"
    by simp
  show ?thesis
    using debounce_trailing_edge [OF s q l] q l
    by (simp add: debounce_init_def)
qed

end
